theory Spec2Isabelle
  imports Main
begin

section \<open>Values of the program\<close>

text \<open>
  The exceptions that \<^verbatim>\<open>sms.py\<close> raises itself are \<^verbatim>\<open>ValueError\<close> (an unknown gateway
  name) and the plain \<^verbatim>\<open>Exception\<close> of the two gateways; \<open>OtherError\<close> stands for any
  exception raised by library code under a gateway (the transport, the JSON parser).
  \<open>str_of\<close> is Python's \<^verbatim>\<open>str(e)\<close>.
\<close>

datatype error = ValueError string | Exception string | OtherError string

fun str_of :: "error \<Rightarrow> string" where
  "str_of (ValueError s) = s"
| "str_of (Exception s) = s"
| "str_of (OtherError s) = s"

text \<open>
  A gateway answers with a \<^verbatim>\<open>Dict\<close>. The engine reads two of its fields and hands them on
  as \<^verbatim>\<open>gateway_message_id: Optional[str]\<close>, so a field is a string; a missing key is
  \<open>None\<close>, as \<^verbatim>\<open>dict.get\<close> returns it.
\<close>

type_synonym payload = "string \<rightharpoonup> string"

text \<open>Python's truth value of an \<^verbatim>\<open>Optional[str]\<close>, and \<^verbatim>\<open>a or b\<close>.\<close>

definition truthy :: "string option \<Rightarrow> bool" where
  "truthy v = (case v of None \<Rightarrow> False | Some s \<Rightarrow> s \<noteq> [])"

definition py_or :: "string option \<Rightarrow> string option \<Rightarrow> string option" where
  "py_or a b = (if truthy a then a else b)"

section \<open>The gateways\<close>

text \<open>
  What \<^verbatim>\<open>requests.post\<close> hands back: the status code, the body as text, and the outcome
  of \<^verbatim>\<open>response.json()\<close> (which raises when the body is not JSON).
\<close>

record response =
  status_code :: int
  resp_text :: string
  resp_json :: "error + payload"

text \<open>
  \<^verbatim>\<open>TwilioGateway.send_sms\<close> and \<^verbatim>\<open>PlivoGateway.send_sms\<close>, as functions of the outcome of
  the request (\<open>Inl\<close> when \<^verbatim>\<open>requests.post\<close> itself raises).
\<close>

definition TwilioGateway_send_sms :: "error + response \<Rightarrow> error + payload" where
  "TwilioGateway_send_sms post =
     (case post of
        Inl e \<Rightarrow> Inl e
      | Inr response \<Rightarrow>
          if status_code response = 201 then resp_json response
          else Inl (Exception (''Twilio API error: '' @ resp_text response)))"

definition PlivoGateway_send_sms :: "error + response \<Rightarrow> error + payload" where
  "PlivoGateway_send_sms post =
     (case post of
        Inl e \<Rightarrow> Inl e
      | Inr response \<Rightarrow>
          if status_code response = 202 then resp_json response
          else Inl (Exception (''Plivo API error: '' @ resp_text response)))"

section \<open>SMSDatabase\<close>

text \<open>
  One row of the table \<^verbatim>\<open>messages\<close> and one of the table \<^verbatim>\<open>logs\<close>, column by column
  (\<open>row_id\<close> is the column \<^verbatim>\<open>id\<close>). Timestamps are integers on one clock. The column
  \<^verbatim>\<open>details\<close> holds either \<^verbatim>\<open>json.dumps(result)\<close> or \<^verbatim>\<open>str(e)\<close>. Every SQL statement
  succeeds: failures of the storage itself are not part of the model.
\<close>

record message_row =
  row_id :: nat
  contact_id :: "nat option"
  recipient :: string
  message :: string
  status :: string
  gateway :: string
  message_id :: "string option"
  scheduled_at :: "int option"
  sent_at :: "int option"
  created_at :: int

datatype detail = JsonDumps payload | Text string

record log_entry =
  log_id :: nat
  log_message_id :: nat
  log_status :: string
  details :: detail
  log_created_at :: int

text \<open>
  The two tables in insertion order, each with the counter that
  \<^verbatim>\<open>AUTOINCREMENT\<close> keeps: the largest key ever handed out.
\<close>

record database =
  messages :: "message_row list"
  logs :: "log_entry list"
  messages_seq :: nat
  logs_seq :: nat

definition empty_db :: database where
  "empty_db = \<lparr>messages = [], logs = [], messages_seq = 0, logs_seq = 0\<rparr>"

text \<open>\<^verbatim>\<open>log_message\<close>: one INSERT; returns \<^verbatim>\<open>cursor.lastrowid\<close>.\<close>

definition log_message ::
  "database \<Rightarrow> int \<Rightarrow> string \<Rightarrow> string \<Rightarrow> string \<Rightarrow> string \<Rightarrow> int option \<Rightarrow> nat option
     \<Rightarrow> database \<times> nat" where
  "log_message d now rcpt body gateway_name st sched contact =
     (let new_id = Suc (messages_seq d);
          row = \<lparr>row_id = new_id, contact_id = contact, recipient = rcpt, message = body,
                 status = st, gateway = gateway_name, message_id = None,
                 scheduled_at = sched, sent_at = None, created_at = now\<rparr>
      in (d\<lparr>messages := messages d @ [row], messages_seq := new_id\<rparr>, new_id))"

text \<open>
  \<^verbatim>\<open>update_message_status\<close>: the branch is Python's truth value of
  \<^verbatim>\<open>gateway_message_id\<close>; each UPDATE touches the rows \<^verbatim>\<open>WHERE id = ?\<close>.
\<close>

definition update_message_status ::
  "database \<Rightarrow> int \<Rightarrow> nat \<Rightarrow> string \<Rightarrow> string option \<Rightarrow> database" where
  "update_message_status d now mid st gateway_message_id =
     (if truthy gateway_message_id then
        d\<lparr>messages := map (\<lambda>r. if row_id r = mid
                then r\<lparr>status := st, message_id := gateway_message_id, sent_at := Some now\<rparr>
                else r) (messages d)\<rparr>
      else
        d\<lparr>messages := map (\<lambda>r. if row_id r = mid then r\<lparr>status := st\<rparr> else r) (messages d)\<rparr>)"

text \<open>\<^verbatim>\<open>add_log_entry\<close>: one INSERT into \<^verbatim>\<open>logs\<close>.\<close>

definition add_log_entry :: "database \<Rightarrow> int \<Rightarrow> nat \<Rightarrow> string \<Rightarrow> detail \<Rightarrow> database" where
  "add_log_entry d now mid st det =
     (let new_id = Suc (logs_seq d)
      in d\<lparr>logs := logs d @ [\<lparr>log_id = new_id, log_message_id = mid, log_status = st,
                                details = det, log_created_at = now\<rparr>],
           logs_seq := new_id\<rparr>)"

text \<open>
  \<^verbatim>\<open>get_pending_messages\<close>: the SELECT, with \<open>now\<close> for \<^verbatim>\<open>datetime('now')\<close>.
\<close>

definition get_pending_messages :: "database \<Rightarrow> int \<Rightarrow> message_row list" where
  "get_pending_messages d now =
     filter (\<lambda>r. status r = ''pending'' \<and>
                 (case scheduled_at r of None \<Rightarrow> True | Some t \<Rightarrow> t \<le> now))
            (messages d)"

section \<open>SMSMessenger\<close>

text \<open>
  The engine holds the database and the registry. A registered gateway is an object whose
  answers come from the network, so the registry is the set of registered names and the
  outcome of each \<^verbatim>\<open>gateway.send_sms\<close> call is an input of the operation that makes it.
\<close>

record messenger =
  gateways :: "string set"
  db :: database

definition init :: messenger where
  "init = \<lparr>gateways = {}, db = empty_db\<rparr>"

definition add_gateway :: "messenger \<Rightarrow> string \<Rightarrow> messenger" where
  "add_gateway s name = s\<lparr>gateways := insert name (gateways s)\<rparr>"

definition not_configured :: "string \<Rightarrow> error" where
  "not_configured gateway_name = ValueError (''Gateway '' @ gateway_name @ '' not configured'')"

text \<open>
  \<^verbatim>\<open>send_immediate_sms\<close>. \<open>sms\<close> is the outcome of \<^verbatim>\<open>gateway.send_sms(recipient, message)\<close>.
  The result pairs what the caller sees (\<open>Inl\<close>: the exception raised) with the engine
  afterwards.
\<close>

definition send_immediate_sms ::
  "messenger \<Rightarrow> int \<Rightarrow> string \<Rightarrow> string \<Rightarrow> string \<Rightarrow> error + payload
     \<Rightarrow> (error + payload) \<times> messenger" where
  "send_immediate_sms s now gateway_name rcpt body sms =
     (if gateway_name \<notin> gateways s then (Inl (not_configured gateway_name), s)
      else
        let (d1, db_message_id) =
              log_message (db s) now rcpt body gateway_name ''pending'' None None
        in case sms of
             Inr result \<Rightarrow>
               let d2 = update_message_status d1 now db_message_id ''sent''
                          (py_or (result ''sid'') (result ''message_uuid''));
                   d3 = add_log_entry d2 now db_message_id ''sent'' (JsonDumps result)
               in (Inr result, s\<lparr>db := d3\<rparr>)
           | Inl e \<Rightarrow>
               let d2 = (if db_message_id \<noteq> 0
                         then add_log_entry
                                (update_message_status d1 now db_message_id ''failed'' None)
                                now db_message_id ''failed'' (Text (str_of e))
                         else d1)
               in (Inl e, s\<lparr>db := d2\<rparr>))"

text \<open>\<^verbatim>\<open>schedule_sms\<close>.\<close>

definition schedule_sms ::
  "messenger \<Rightarrow> int \<Rightarrow> string \<Rightarrow> string \<Rightarrow> string \<Rightarrow> int \<Rightarrow> (error + nat) \<times> messenger" where
  "schedule_sms s now gateway_name rcpt body schedule_time =
     (if gateway_name \<notin> gateways s then (Inl (not_configured gateway_name), s)
      else
        let (d1, db_message_id) =
              log_message (db s) now rcpt body gateway_name ''scheduled'' (Some schedule_time) None
        in (Inr db_message_id, s\<lparr>db := d1\<rparr>))"

text \<open>
  \<^verbatim>\<open>process_scheduled_messages\<close>: the loop over the rows fetched before it starts.
  \<open>sms row\<close> is the outcome of the \<^verbatim>\<open>gateway.send_sms\<close> call made for that row.
\<close>

fun process_loop ::
  "string set \<Rightarrow> int \<Rightarrow> (message_row \<Rightarrow> error + payload) \<Rightarrow> message_row list \<Rightarrow> database
     \<Rightarrow> database" where
  "process_loop gws now sms [] d = d"
| "process_loop gws now sms (m # pending_messages) d =
     (let gateway_name = gateway m; db_message_id = row_id m in
      if gateway_name \<notin> gws then process_loop gws now sms pending_messages d
      else case sms m of
             Inr result \<Rightarrow>
               process_loop gws now sms pending_messages
                 (add_log_entry
                    (update_message_status d now db_message_id ''sent''
                       (py_or (result ''sid'') (result ''message_uuid'')))
                    now db_message_id ''sent'' (JsonDumps result))
           | Inl e \<Rightarrow>
               process_loop gws now sms pending_messages
                 (add_log_entry
                    (update_message_status d now db_message_id ''failed'' None)
                    now db_message_id ''failed'' (Text (str_of e))))"

definition process_scheduled_messages ::
  "messenger \<Rightarrow> int \<Rightarrow> (message_row \<Rightarrow> error + payload) \<Rightarrow> messenger" where
  "process_scheduled_messages s now sms =
     s\<lparr>db := process_loop (gateways s) now sms (get_pending_messages (db s) now) (db s)\<rparr>"

text \<open>
  \<^verbatim>\<open>check_delivery_status\<close> and \<^verbatim>\<open>get_gateway_balance\<close>; \<open>answer\<close> is the outcome of the
  gateway's own call.
\<close>

definition check_delivery_status ::
  "messenger \<Rightarrow> string \<Rightarrow> string \<Rightarrow> error + payload \<Rightarrow> (error + payload) \<times> messenger" where
  "check_delivery_status s mid gateway_name answer =
     (if gateway_name \<notin> gateways s then (Inl (not_configured gateway_name), s)
      else (answer, s))"

definition get_gateway_balance ::
  "messenger \<Rightarrow> string \<Rightarrow> error + 'b \<Rightarrow> (error + 'b) \<times> messenger" where
  "get_gateway_balance s gateway_name answer =
     (if gateway_name \<notin> gateways s then (Inl (not_configured gateway_name), s)
      else (answer, s))"

section \<open>Sequences of engine operations\<close>

datatype op =
    AddGateway string
  | SendNow int string string string "error + payload"
  | ScheduleFor int string string string int
  | DrainDue int "message_row \<Rightarrow> error + payload"

fun step :: "messenger \<Rightarrow> op \<Rightarrow> messenger" where
  "step s (AddGateway name) = add_gateway s name"
| "step s (SendNow now g rcpt body sms) = snd (send_immediate_sms s now g rcpt body sms)"
| "step s (ScheduleFor now g rcpt body t) = snd (schedule_sms s now g rcpt body t)"
| "step s (DrainDue now sms) = process_scheduled_messages s now sms"

definition run :: "op list \<Rightarrow> messenger \<Rightarrow> messenger" where
  "run ops s = foldl step s ops"

text \<open>The row stored under a key, and its status.\<close>

definition row_of :: "database \<Rightarrow> nat \<Rightarrow> message_row option" where
  "row_of d k = find (\<lambda>r. row_id r = k) (messages d)"

definition status_of :: "database \<Rightarrow> nat \<Rightarrow> string option" where
  "status_of d k = map_option status (row_of d k)"

text \<open>
  What the primary key with \<^verbatim>\<open>AUTOINCREMENT\<close> guarantees of the table \<^verbatim>\<open>messages\<close>:
  keys are distinct and none exceeds the counter.
\<close>

definition wf_db :: "database \<Rightarrow> bool" where
  "wf_db d = (distinct (map row_id (messages d)) \<and>
              (\<forall>r \<in> set (messages d). row_id r \<le> messages_seq d))"

section \<open>Notions used in the statements\<close>

text \<open>
  What one UPDATE of \<^verbatim>\<open>update_message_status\<close> does to a row it matches, and what one
  delivery attempt (the \<^verbatim>\<open>try\<close> block with its \<^verbatim>\<open>except\<close>) does to the row of its message:
  the status, the details and the row it leaves, by the outcome of \<^verbatim>\<open>gateway.send_sms\<close>.
\<close>

definition update_row :: "int \<Rightarrow> string \<Rightarrow> string option \<Rightarrow> message_row \<Rightarrow> message_row" where
  "update_row now st g r =
     (if truthy g then r\<lparr>status := st, message_id := g, sent_at := Some now\<rparr>
      else r\<lparr>status := st\<rparr>)"

definition attempt_row :: "int \<Rightarrow> error + payload \<Rightarrow> message_row \<Rightarrow> message_row" where
  "attempt_row now out r =
     (case out of
        Inr result \<Rightarrow> update_row now ''sent'' (py_or (result ''sid'') (result ''message_uuid'')) r
      | Inl e \<Rightarrow> update_row now ''failed'' None r)"

definition attempt_status :: "error + payload \<Rightarrow> string" where
  "attempt_status out = (case out of Inr result \<Rightarrow> ''sent'' | Inl e \<Rightarrow> ''failed'')"

definition attempt_detail :: "error + payload \<Rightarrow> detail" where
  "attempt_detail out = (case out of Inr result \<Rightarrow> JsonDumps result | Inl e \<Rightarrow> Text (str_of e))"

text \<open>
  The effect of the whole loop of \<^verbatim>\<open>process_scheduled_messages\<close> on a single row, and
  the rows of \<^verbatim>\<open>logs\<close> that a later database has beyond an earlier one.
\<close>

fun loop_row ::
  "string set \<Rightarrow> int \<Rightarrow> (message_row \<Rightarrow> error + payload) \<Rightarrow> message_row list \<Rightarrow> message_row
     \<Rightarrow> message_row" where
  "loop_row gws now sms [] r = r"
| "loop_row gws now sms (m # ms) r =
     (if gateway m \<notin> gws then loop_row gws now sms ms r
      else loop_row gws now sms ms
             (if row_id r = row_id m then attempt_row now (sms m) r else r))"

definition new_logs :: "database \<Rightarrow> database \<Rightarrow> log_entry list" where
  "new_logs d d' = drop (length (logs d)) (logs d')"

text \<open>
  The row that \<^verbatim>\<open>log_message\<close> inserts when no contact is given.
\<close>

definition new_row :: "database \<Rightarrow> int \<Rightarrow> string \<Rightarrow> string \<Rightarrow> string \<Rightarrow> string \<Rightarrow> int option \<Rightarrow> message_row" where
  "new_row d now rcpt body gateway_name st sched =
     \<lparr>row_id = Suc (messages_seq d), contact_id = None, recipient = rcpt, message = body,
      status = st, gateway = gateway_name, message_id = None,
      scheduled_at = sched, sent_at = None, created_at = now\<rparr>"

text \<open>
  The pairing of \<^verbatim>\<open>sent_at\<close> with \<^verbatim>\<open>message_id\<close> on a row; a gateway answer that carries
  a non-empty identifier under \<^verbatim>\<open>'sid'\<close> or \<^verbatim>\<open>'message_uuid'\<close>; an operation all of whose
  successful gateway answers do.
\<close>

definition row_inv :: "message_row \<Rightarrow> bool" where
  "row_inv r = ((sent_at r \<noteq> None \<longleftrightarrow> message_id r \<noteq> None) \<and>
                (message_id r \<noteq> None \<longrightarrow> status r = ''sent''))"

definition has_id :: "payload \<Rightarrow> bool" where
  "has_id result = truthy (py_or (result ''sid'') (result ''message_uuid''))"

fun carries_id :: "op \<Rightarrow> bool" where
  "carries_id (SendNow now g rcpt body sms) =
     (case sms of Inr result \<Rightarrow> has_id result | Inl e \<Rightarrow> True)"
| "carries_id (DrainDue now sms) = (\<forall>m result. sms m = Inr result \<longrightarrow> has_id result)"
| "carries_id _ = True"

text \<open>
  Example data: a store with three pending rows, one of them for a gateway that is not
  registered; gateway outcomes that fail for row 1 and succeed otherwise; two runs of
  engine operations.
\<close>

definition pending_row :: "nat \<Rightarrow> string \<Rightarrow> message_row" where
  "pending_row k g =
     \<lparr>row_id = k, contact_id = None, recipient = ''+15551230000'', message = ''hi'',
      status = ''pending'', gateway = g, message_id = None, scheduled_at = None,
      sent_at = None, created_at = 0\<rparr>"

definition backlog :: messenger where
  "backlog =
     \<lparr>gateways = {''twilio''},
      db = \<lparr>messages = [pending_row 1 ''twilio'', pending_row 2 ''plivo'', pending_row 3 ''twilio''],
            logs = [], messages_seq = 3, logs_seq = 0\<rparr>\<rparr>"

definition flaky :: "message_row \<Rightarrow> error + payload" where
  "flaky m = (if row_id m = 1 then Inl (Exception ''Twilio API error: down'')
              else Inr [''sid'' \<mapsto> ''SM3''])"

definition earlier_ops :: "op list" where
  "earlier_ops =
     [AddGateway ''twilio'',
      SendNow 1 ''twilio'' ''+15551230000'' ''hi'' (Inl (Exception ''Twilio API error: down'')),
      ScheduleFor 2 ''twilio'' ''+15551230000'' ''hi'' 50]"

definition later_ops :: "op list" where
  "later_ops =
     [DrainDue 100 flaky,
      SendNow 101 ''twilio'' ''+15551230001'' ''yo'' (Inr [''sid'' \<mapsto> ''SM9''])]"

lemmas engine_defs =
  run_def add_gateway_def send_immediate_sms_def schedule_sms_def log_message_def
  update_message_status_def add_log_entry_def init_def empty_db_def truthy_def py_or_def

section \<open>The store operations\<close>

lemma messages_update:
  "messages (update_message_status d now k st g)
     = map (\<lambda>r. if row_id r = k then update_row now st g r else r) (messages d)"
  by (simp add: update_message_status_def update_row_def)

lemma update_other [simp]:
  "logs (update_message_status d now k st g) = logs d"
  "messages_seq (update_message_status d now k st g) = messages_seq d"
  "logs_seq (update_message_status d now k st g) = logs_seq d"
  by (simp_all add: update_message_status_def)

lemma add_log_entry_fields [simp]:
  "messages (add_log_entry d now k st det) = messages d"
  "messages_seq (add_log_entry d now k st det) = messages_seq d"
  "logs (add_log_entry d now k st det)
     = logs d @ [\<lparr>log_id = Suc (logs_seq d), log_message_id = k, log_status = st,
                  details = det, log_created_at = now\<rparr>]"
  by (simp_all add: add_log_entry_def Let_def)

lemma row_id_update_row [simp]: "row_id (update_row now st g r) = row_id r"
  by (simp add: update_row_def)

lemma row_id_attempt_row [simp]: "row_id (attempt_row now out r) = row_id r"
  by (simp add: attempt_row_def split: sum.splits)

lemma status_attempt_row [simp]: "status (attempt_row now out r) = attempt_status out"
  by (simp add: attempt_row_def attempt_status_def update_row_def split: sum.splits)

lemma map_upd_fresh:
  assumes "\<forall>r \<in> set xs. row_id r \<noteq> k"
  shows "map (\<lambda>r. if row_id r = k then u r else r) xs = xs"
  using assms by (induction xs) auto

lemma wf_db_fresh: "wf_db d \<Longrightarrow> \<forall>r \<in> set (messages d). row_id r \<noteq> Suc (messages_seq d)"
  by (auto simp: wf_db_def)

lemma wf_db_same_row:
  assumes "wf_db d" and "r \<in> set (messages d)" and "m \<in> set (messages d)"
    and "row_id m = row_id r"
  shows "m = r"
proof -
  have "inj_on row_id (set (messages d))"
    using assms(1) by (simp add: wf_db_def distinct_map)
  then show ?thesis using assms(2-4) by (auto dest: inj_onD)
qed

lemma find_distinct:
  "distinct (map f xs) \<Longrightarrow> x \<in> set xs \<Longrightarrow> find (\<lambda>y. f y = f x) xs = Some x"
  by (induction xs) (auto simp: image_iff)

lemma row_of_wf: "wf_db d \<Longrightarrow> r \<in> set (messages d) \<Longrightarrow> row_of d (row_id r) = Some r"
  by (simp add: row_of_def wf_db_def find_distinct)

lemma row_of_SomeD: "row_of d k = Some r \<Longrightarrow> r \<in> set (messages d) \<and> row_id r = k"
  by (auto simp: row_of_def find_Some_iff)

lemma distinct_pending: "wf_db d \<Longrightarrow> distinct (map row_id (get_pending_messages d now))"
  by (simp add: wf_db_def get_pending_messages_def distinct_map_filter)

lemma pending_subset: "m \<in> set (get_pending_messages d now) \<Longrightarrow> m \<in> set (messages d)"
  by (simp add: get_pending_messages_def)

lemma pending_status: "m \<in> set (get_pending_messages d now) \<Longrightarrow> status m = ''pending''"
  by (simp add: get_pending_messages_def)

lemma wf_db_append:
  assumes "wf_db d" and "messages d' = messages d @ [r]"
    and "messages_seq d' = Suc (messages_seq d)" and "row_id r = Suc (messages_seq d)"
  shows "wf_db d'"
  using assms by (auto simp: wf_db_def)

lemma wf_init: "wf_db (db init)"
  by (simp add: init_def empty_db_def wf_db_def)

section \<open>The drain loop\<close>

lemma process_loop_step:
  "gateway m \<in> gws \<Longrightarrow>
   process_loop gws now sms (m # ms) d =
     process_loop gws now sms ms
       (add_log_entry
          (update_message_status d now (row_id m) (attempt_status (sms m))
             (case sms m of Inr result \<Rightarrow> py_or (result ''sid'') (result ''message_uuid'')
                          | Inl e \<Rightarrow> None))
          now (row_id m) (attempt_status (sms m)) (attempt_detail (sms m)))"
  by (simp add: attempt_status_def attempt_detail_def Let_def split: sum.splits)

lemma messages_process_loop:
  "messages (process_loop gws now sms ms d) = map (loop_row gws now sms ms) (messages d)"
proof (induction ms arbitrary: d)
  case Nil
  show ?case by simp
next
  case (Cons m ms)
  show ?case
  proof (cases "gateway m \<in> gws")
    case False
    then show ?thesis using Cons.IH by (simp add: Let_def)
  next
    case True
    have "(\<lambda>r. if row_id r = row_id m
                then update_row now (attempt_status (sms m))
                       (case sms m of Inr result \<Rightarrow> py_or (result ''sid'') (result ''message_uuid'')
                                    | Inl e \<Rightarrow> None) r
                else r)
          = (\<lambda>r. if row_id r = row_id m then attempt_row now (sms m) r else r)"
      by (auto simp: attempt_row_def attempt_status_def split: sum.splits)
    then show ?thesis
      using True Cons.IH
      by (simp add: process_loop_step messages_update o_def del: process_loop.simps)
  qed
qed

lemma messages_seq_process_loop:
  "messages_seq (process_loop gws now sms ms d) = messages_seq d"
proof (induction ms arbitrary: d)
  case Nil
  show ?case by simp
next
  case (Cons m ms)
  show ?case
  proof (cases "gateway m \<in> gws")
    case False
    then show ?thesis using Cons.IH by (simp add: Let_def)
  next
    case True
    then show ?thesis using Cons.IH
      by (simp add: process_loop_step del: process_loop.simps)
  qed
qed

lemma logs_process_loop:
  "\<exists>ls. logs (process_loop gws now sms ms d) = logs d @ ls \<and>
        map log_message_id ls = map row_id (filter (\<lambda>m. gateway m \<in> gws) ms) \<and>
        map log_status ls = map (\<lambda>m. attempt_status (sms m)) (filter (\<lambda>m. gateway m \<in> gws) ms) \<and>
        map details ls = map (\<lambda>m. attempt_detail (sms m)) (filter (\<lambda>m. gateway m \<in> gws) ms)"
proof (induction ms arbitrary: d)
  case Nil
  show ?case by simp
next
  case (Cons m ms)
  show ?case
  proof (cases "gateway m \<in> gws")
    case False
    then show ?thesis using Cons.IH [of d] by (simp add: Let_def)
  next
    case True
    let ?d1 = "add_log_entry
          (update_message_status d now (row_id m) (attempt_status (sms m))
             (case sms m of Inr result \<Rightarrow> py_or (result ''sid'') (result ''message_uuid'')
                          | Inl e \<Rightarrow> None))
          now (row_id m) (attempt_status (sms m)) (attempt_detail (sms m))"
    obtain ls where ls: "logs (process_loop gws now sms ms ?d1) = logs ?d1 @ ls"
      "map log_message_id ls = map row_id (filter (\<lambda>m. gateway m \<in> gws) ms)"
      "map log_status ls = map (\<lambda>m. attempt_status (sms m)) (filter (\<lambda>m. gateway m \<in> gws) ms)"
      "map details ls = map (\<lambda>m. attempt_detail (sms m)) (filter (\<lambda>m. gateway m \<in> gws) ms)"
      using Cons.IH [of ?d1] by blast
    let ?l = "\<lparr>log_id = Suc (logs_seq d), log_message_id = row_id m,
               log_status = attempt_status (sms m), details = attempt_detail (sms m),
               log_created_at = now\<rparr>"
    have "logs (process_loop gws now sms (m # ms) d) = logs d @ (?l # ls)"
      using True ls(1) by (simp add: process_loop_step del: process_loop.simps)
    then show ?thesis
      using True ls(2-4) by (intro exI [of _ "?l # ls"]) simp
  qed
qed

lemma row_id_loop_row [simp]: "row_id (loop_row gws now sms ms r) = row_id r"
  by (induction ms arbitrary: r) auto

lemma loop_row_skip:
  assumes "\<forall>m \<in> set ms. gateway m \<in> gws \<longrightarrow> row_id m \<noteq> row_id r"
  shows "loop_row gws now sms ms r = r"
  using assms by (induction ms arbitrary: r) auto

lemma loop_row_once:
  assumes "distinct (map row_id ms)" and "m \<in> set ms" and "gateway m \<in> gws"
    and "row_id r = row_id m"
  shows "loop_row gws now sms ms r = attempt_row now (sms m) r"
  using assms
proof (induction ms arbitrary: r)
  case Nil
  then show ?case by simp
next
  case (Cons a ms)
  show ?case
  proof (cases "a = m")
    case True
    have "\<forall>x \<in> set ms. gateway x \<in> gws \<longrightarrow> row_id x \<noteq> row_id (attempt_row now (sms m) r)"
      using Cons.prems(1,4) True by (auto simp: image_iff)
    then have "loop_row gws now sms ms (attempt_row now (sms m) r) = attempt_row now (sms m) r"
      by (rule loop_row_skip)
    then show ?thesis using True Cons.prems(3,4) by simp
  next
    case False
    then have in_ms: "m \<in> set ms" using Cons.prems(2) by simp
    then have "row_id a \<noteq> row_id m" using Cons.prems(1) by force
    then show ?thesis
      using Cons.IH [of r] Cons.prems in_ms by simp
  qed
qed

lemma drain_row:
  assumes "wf_db d" and "r \<in> set (messages d)"
  shows "loop_row gws now sms (get_pending_messages d now) r
           = (if r \<in> set (get_pending_messages d now) \<and> gateway r \<in> gws
              then attempt_row now (sms r) r else r)"
proof (cases "r \<in> set (get_pending_messages d now) \<and> gateway r \<in> gws")
  case True
  then show ?thesis
    using loop_row_once [OF distinct_pending [OF assms(1)], where m = r and r = r] by simp
next
  case False
  have "\<forall>m \<in> set (get_pending_messages d now). gateway m \<in> gws \<longrightarrow> row_id m \<noteq> row_id r"
  proof (intro ballI impI notI)
    fix m assume m: "m \<in> set (get_pending_messages d now)" "gateway m \<in> gws" "row_id m = row_id r"
    have "m = r"
      using wf_db_same_row [OF assms(1,2) pending_subset [OF m(1)] m(3)] .
    then show False using m False by simp
  qed
  then have "loop_row gws now sms (get_pending_messages d now) r = r"
    by (rule loop_row_skip)
  then show ?thesis using False by auto
qed

lemma messages_drain:
  assumes "wf_db (db s)"
  shows "messages (db (process_scheduled_messages s now sms))
           = map (\<lambda>r. if r \<in> set (get_pending_messages (db s) now) \<and> gateway r \<in> gateways s
                       then attempt_row now (sms r) r else r) (messages (db s))"
  using drain_row [OF assms]
  by (simp add: process_scheduled_messages_def messages_process_loop)

section \<open>Immediate and deferred sends\<close>

lemma send_immediate_messages:
  assumes "gateway_name \<in> gateways s" and "wf_db (db s)"
  shows "messages (db (snd (send_immediate_sms s now gateway_name rcpt body out)))
           = messages (db s) @
             [attempt_row now out (new_row (db s) now rcpt body gateway_name ''pending'' None)]"
    and "messages_seq (db (snd (send_immediate_sms s now gateway_name rcpt body out)))
           = Suc (messages_seq (db s))"
proof -
  have fresh: "\<forall>r \<in> set (messages (db s)). row_id r \<noteq> Suc (messages_seq (db s))"
    using assms(2) by (rule wf_db_fresh)
  note keep = map_upd_fresh [OF fresh]
  show "messages (db (snd (send_immediate_sms s now gateway_name rcpt body out)))
           = messages (db s) @
             [attempt_row now out (new_row (db s) now rcpt body gateway_name ''pending'' None)]"
    using assms(1) keep
    by (cases out)
       (simp_all add: send_immediate_sms_def log_message_def messages_update attempt_row_def
          new_row_def Let_def)
  show "messages_seq (db (snd (send_immediate_sms s now gateway_name rcpt body out)))
           = Suc (messages_seq (db s))"
    using assms(1)
    by (cases out) (simp_all add: send_immediate_sms_def log_message_def Let_def)
qed

lemma schedule_messages:
  assumes "gateway_name \<in> gateways s"
  shows "messages (db (snd (schedule_sms s now gateway_name rcpt body t)))
           = messages (db s) @ [new_row (db s) now rcpt body gateway_name ''scheduled'' (Some t)]"
    and "messages_seq (db (snd (schedule_sms s now gateway_name rcpt body t)))
           = Suc (messages_seq (db s))"
  using assms by (simp_all add: schedule_sms_def log_message_def new_row_def Let_def)

section \<open>Well-formedness is kept\<close>

lemma wf_step:
  assumes "wf_db (db s)"
  shows "wf_db (db (step s op))"
proof (cases op)
  case (AddGateway name)
  then show ?thesis using assms by (simp add: add_gateway_def)
next
  case (SendNow now g rcpt body sms)
  show ?thesis
  proof (cases "g \<in> gateways s")
    case True
    show ?thesis
      using wf_db_append [OF assms send_immediate_messages [OF True assms, of now rcpt body sms]]
      by (simp add: SendNow new_row_def)
  next
    case False
    then show ?thesis using assms by (simp add: SendNow send_immediate_sms_def)
  qed
next
  case (ScheduleFor now g rcpt body t)
  show ?thesis
  proof (cases "g \<in> gateways s")
    case True
    show ?thesis
      using wf_db_append [OF assms schedule_messages [OF True, of now rcpt body t]]
      by (simp add: ScheduleFor new_row_def)
  next
    case False
    then show ?thesis using assms by (simp add: ScheduleFor schedule_sms_def)
  qed
next
  case (DrainDue now sms)
  have "map row_id (messages (db (process_scheduled_messages s now sms)))
          = map row_id (messages (db s))"
    by (simp add: process_scheduled_messages_def messages_process_loop o_def)
  moreover have "messages_seq (db (process_scheduled_messages s now sms)) = messages_seq (db s)"
    by (simp add: process_scheduled_messages_def messages_seq_process_loop)
  moreover have "set (map row_id (messages (db (process_scheduled_messages s now sms))))
          = set (map row_id (messages (db s)))"
    using calculation(1) by simp
  ultimately show ?thesis
    using assms unfolding wf_db_def DrainDue step.simps
    by (metis (no_types, lifting) imageE image_eqI list.set_map)
qed

lemma wf_run: "wf_db (db s) \<Longrightarrow> wf_db (db (run ops s))"
  unfolding run_def
  by (induction ops arbitrary: s) (simp_all add: wf_step)

lemma wf_drain: "wf_db (db s) \<Longrightarrow> wf_db (db (process_scheduled_messages s now sms))"
  using wf_step [of s "DrainDue now sms"] by simp

lemma drain_row_of:
  assumes "wf_db (db s)" and "r \<in> set (messages (db s))"
  shows "row_of (db (process_scheduled_messages s now sms)) (row_id r)
           = Some (if r \<in> set (get_pending_messages (db s) now) \<and> gateway r \<in> gateways s
                   then attempt_row now (sms r) r else r)"
proof -
  let ?F = "\<lambda>r. if r \<in> set (get_pending_messages (db s) now) \<and> gateway r \<in> gateways s
                 then attempt_row now (sms r) r else r"
  have "?F r \<in> set (messages (db (process_scheduled_messages s now sms)))"
    using assms(2) by (simp only: messages_drain [OF assms(1)] set_map) (rule imageI)
  moreover have "row_id (?F r) = row_id r" by simp
  ultimately show ?thesis
    using row_of_wf [OF wf_drain [OF assms(1)], of "?F r" now sms] by simp
qed

lemma drain_logs:
  "logs (db (process_scheduled_messages s now sms))
     = logs (db s) @ new_logs (db s) (db (process_scheduled_messages s now sms))"
  "map log_message_id (new_logs (db s) (db (process_scheduled_messages s now sms)))
     = map row_id (filter (\<lambda>m. gateway m \<in> gateways s) (get_pending_messages (db s) now))"
  "map log_status (new_logs (db s) (db (process_scheduled_messages s now sms)))
     = map (\<lambda>m. attempt_status (sms m))
         (filter (\<lambda>m. gateway m \<in> gateways s) (get_pending_messages (db s) now))"
  "map details (new_logs (db s) (db (process_scheduled_messages s now sms)))
     = map (\<lambda>m. attempt_detail (sms m))
         (filter (\<lambda>m. gateway m \<in> gateways s) (get_pending_messages (db s) now))"
proof -
  obtain ls where ls:
    "logs (process_loop (gateways s) now sms (get_pending_messages (db s) now) (db s))
       = logs (db s) @ ls"
    "map log_message_id ls
       = map row_id (filter (\<lambda>m. gateway m \<in> gateways s) (get_pending_messages (db s) now))"
    "map log_status ls = map (\<lambda>m. attempt_status (sms m))
         (filter (\<lambda>m. gateway m \<in> gateways s) (get_pending_messages (db s) now))"
    "map details ls = map (\<lambda>m. attempt_detail (sms m))
         (filter (\<lambda>m. gateway m \<in> gateways s) (get_pending_messages (db s) now))"
    using logs_process_loop [of "gateways s" now sms "get_pending_messages (db s) now" "db s"]
    by blast
  have new: "new_logs (db s) (db (process_scheduled_messages s now sms)) = ls"
    using ls(1) by (simp add: new_logs_def process_scheduled_messages_def)
  show "logs (db (process_scheduled_messages s now sms))
     = logs (db s) @ new_logs (db s) (db (process_scheduled_messages s now sms))"
    using ls(1) unfolding new by (simp add: process_scheduled_messages_def)
  show "map log_message_id (new_logs (db s) (db (process_scheduled_messages s now sms)))
     = map row_id (filter (\<lambda>m. gateway m \<in> gateways s) (get_pending_messages (db s) now))"
    unfolding new by (rule ls(2))
  show "map log_status (new_logs (db s) (db (process_scheduled_messages s now sms)))
     = map (\<lambda>m. attempt_status (sms m))
         (filter (\<lambda>m. gateway m \<in> gateways s) (get_pending_messages (db s) now))"
    unfolding new by (rule ls(3))
  show "map details (new_logs (db s) (db (process_scheduled_messages s now sms)))
     = map (\<lambda>m. attempt_detail (sms m))
         (filter (\<lambda>m. gateway m \<in> gateways s) (get_pending_messages (db s) now))"
    unfolding new by (rule ls(4))
qed

lemma wf_backlog: "wf_db (db backlog)" "wf_db (db (add_gateway backlog ''plivo''))"
  by (simp_all add: backlog_def add_gateway_def wf_db_def pending_row_def)

lemma pending_backlog:
  "get_pending_messages (db backlog) 10
     = [pending_row 1 ''twilio'', pending_row 2 ''plivo'', pending_row 3 ''twilio'']"
  "get_pending_messages (db (add_gateway backlog ''plivo'')) 10
     = [pending_row 1 ''twilio'', pending_row 2 ''plivo'', pending_row 3 ''twilio'']"
  by (simp_all add: backlog_def add_gateway_def get_pending_messages_def pending_row_def)

section \<open>Rows that are no longer pending\<close>

lemma step_frozen:
  assumes "wf_db (db s)" and "r \<in> set (messages (db s))" and "status r \<noteq> ''pending''"
  shows "r \<in> set (messages (db (step s op)))"
proof (cases op)
  case (AddGateway name)
  then show ?thesis using assms(2) by (simp add: add_gateway_def)
next
  case (SendNow now g rcpt body sms)
  show ?thesis
  proof (cases "g \<in> gateways s")
    case True
    show ?thesis
      using assms(2) by (simp add: SendNow send_immediate_messages(1) [OF True assms(1)])
  next
    case False
    then show ?thesis using assms(2) by (simp add: SendNow send_immediate_sms_def)
  qed
next
  case (ScheduleFor now g rcpt body t)
  show ?thesis
  proof (cases "g \<in> gateways s")
    case True
    show ?thesis
      using assms(2) by (simp add: ScheduleFor schedule_messages(1) [OF True])
  next
    case False
    then show ?thesis using assms(2) by (simp add: ScheduleFor schedule_sms_def)
  qed
next
  case (DrainDue now sms)
  have "r \<notin> set (get_pending_messages (db s) now)"
    using assms(3) pending_status by blast
  then have "row_of (db (process_scheduled_messages s now sms)) (row_id r) = Some r"
    using drain_row_of [OF assms(1,2), of now sms] by simp
  then show ?thesis using DrainDue by (simp add: row_of_SomeD)
qed

lemma run_frozen:
  assumes "wf_db (db s)" and "r \<in> set (messages (db s))" and "status r \<noteq> ''pending''"
  shows "r \<in> set (messages (db (run ops s)))"
  using assms unfolding run_def
proof (induction ops arbitrary: s)
  case Nil
  then show ?case by simp
next
  case (Cons op ops)
  have a: "wf_db (db (step s op))" using Cons.prems(1) by (rule wf_step)
  have b: "r \<in> set (messages (db (step s op)))" using Cons.prems by (rule step_frozen)
  show ?case using Cons.IH [OF a b Cons.prems(3)] by simp
qed

section \<open>The pairing invariant\<close>

lemma attempt_row_inv:
  assumes "message_id r = None" and "sent_at r = None"
  shows "row_inv (attempt_row now out r)"
  using assms
  by (cases out)
     (auto simp: row_inv_def attempt_row_def update_row_def truthy_def split: option.splits)

lemma attempt_row_full:
  assumes "\<forall>result. out = Inr result \<longrightarrow> has_id result"
  shows "status (attempt_row now out r) = ''sent'' \<longrightarrow> message_id (attempt_row now out r) \<noteq> None"
  using assms
  by (cases out) (auto simp: attempt_row_def update_row_def has_id_def truthy_def split: option.splits)

lemma new_row_inv: "row_inv (new_row d now rcpt body g st sched)"
  by (simp add: row_inv_def new_row_def)

lemma pending_no_id:
  assumes "row_inv r" and "status r = ''pending''"
  shows "message_id r = None" and "sent_at r = None"
  using assms by (auto simp: row_inv_def)

lemma step_inv:
  assumes "wf_db (db s)" and "\<forall>r \<in> set (messages (db s)). row_inv r"
  shows "\<forall>r \<in> set (messages (db (step s op))). row_inv r"
proof (cases op)
  case (AddGateway name)
  then show ?thesis using assms(2) by (simp add: add_gateway_def)
next
  case (SendNow now g rcpt body sms)
  show ?thesis
  proof (cases "g \<in> gateways s")
    case True
    have "row_inv (attempt_row now sms (new_row (db s) now rcpt body g ''pending'' None))"
      by (rule attempt_row_inv) (simp_all add: new_row_def)
    then show ?thesis
      using assms(2) by (simp add: SendNow send_immediate_messages(1) [OF True assms(1)])
  next
    case False
    then show ?thesis using assms(2) by (simp add: SendNow send_immediate_sms_def)
  qed
next
  case (ScheduleFor now g rcpt body t)
  show ?thesis
  proof (cases "g \<in> gateways s")
    case True
    show ?thesis
      using assms(2) new_row_inv by (simp add: ScheduleFor schedule_messages(1) [OF True])
  next
    case False
    then show ?thesis using assms(2) by (simp add: ScheduleFor schedule_sms_def)
  qed
next
  case (DrainDue now sms)
  have "row_inv (if r \<in> set (get_pending_messages (db s) now) \<and> gateway r \<in> gateways s
                 then attempt_row now (sms r) r else r)"
    if "r \<in> set (messages (db s))" for r
  proof (cases "r \<in> set (get_pending_messages (db s) now) \<and> gateway r \<in> gateways s")
    case True
    then have "status r = ''pending''" using pending_status by blast
    then have "row_inv (attempt_row now (sms r) r)"
      using pending_no_id [of r] assms(2) that by (intro attempt_row_inv) simp_all
    then show ?thesis using True by simp
  next
    case False
    then show ?thesis using assms(2) that by auto
  qed
  then show ?thesis
    unfolding DrainDue step.simps messages_drain [OF assms(1)] set_map by blast
qed

lemma step_full:
  assumes "wf_db (db s)" and "carries_id op"
    and "\<forall>r \<in> set (messages (db s)). status r = ''sent'' \<longrightarrow> message_id r \<noteq> None"
  shows "\<forall>r \<in> set (messages (db (step s op))). status r = ''sent'' \<longrightarrow> message_id r \<noteq> None"
proof (cases op)
  case (AddGateway name)
  then show ?thesis using assms(3) by (simp add: add_gateway_def)
next
  case (SendNow now g rcpt body sms)
  show ?thesis
  proof (cases "g \<in> gateways s")
    case True
    have "\<forall>result. sms = Inr result \<longrightarrow> has_id result"
      using assms(2) by (auto simp: SendNow)
    then show ?thesis
      using assms(3) attempt_row_full [of sms now]
      by (simp add: SendNow send_immediate_messages(1) [OF True assms(1)])
  next
    case False
    then show ?thesis using assms(3) by (simp add: SendNow send_immediate_sms_def)
  qed
next
  case (ScheduleFor now g rcpt body t)
  show ?thesis
  proof (cases "g \<in> gateways s")
    case True
    show ?thesis
      using assms(3) by (simp add: ScheduleFor schedule_messages(1) [OF True] new_row_def)
  next
    case False
    then show ?thesis using assms(3) by (simp add: ScheduleFor schedule_sms_def)
  qed
next
  case (DrainDue now sms)
  have ids: "\<forall>result. sms r = Inr result \<longrightarrow> has_id result" for r
    using assms(2) by (simp add: DrainDue)
  have "status (if r \<in> set (get_pending_messages (db s) now) \<and> gateway r \<in> gateways s
                then attempt_row now (sms r) r else r) = ''sent''
        \<longrightarrow> message_id (if r \<in> set (get_pending_messages (db s) now) \<and> gateway r \<in> gateways s
                then attempt_row now (sms r) r else r) \<noteq> None"
    if "r \<in> set (messages (db s))" for r
    using that assms(3) attempt_row_full [OF ids [of r], of now r] by (simp del: status_attempt_row)
  then show ?thesis
    unfolding DrainDue step.simps messages_drain [OF assms(1)] set_map by blast
qed

lemma run_inv:
  assumes "wf_db (db s)" and "\<forall>r \<in> set (messages (db s)). row_inv r"
  shows "\<forall>r \<in> set (messages (db (run ops s))). row_inv r"
  using assms unfolding run_def
proof (induction ops arbitrary: s)
  case Nil
  then show ?case by simp
next
  case (Cons op ops)
  have a: "wf_db (db (step s op))" using Cons.prems(1) by (rule wf_step)
  have b: "\<forall>r \<in> set (messages (db (step s op))). row_inv r"
    using Cons.prems by (rule step_inv)
  show ?case using Cons.IH [OF a b] by simp
qed

lemma run_full:
  assumes "wf_db (db s)" and "list_all carries_id ops"
    and "\<forall>r \<in> set (messages (db s)). status r = ''sent'' \<longrightarrow> message_id r \<noteq> None"
  shows "\<forall>r \<in> set (messages (db (run ops s))). status r = ''sent'' \<longrightarrow> message_id r \<noteq> None"
  using assms unfolding run_def
proof (induction ops arbitrary: s)
  case Nil
  then show ?case by simp
next
  case (Cons op ops)
  have c: "carries_id op" "list_all carries_id ops" using Cons.prems(2) by simp_all
  have a: "wf_db (db (step s op))" using Cons.prems(1) by (rule wf_step)
  have b: "\<forall>r \<in> set (messages (db (step s op))). status r = ''sent'' \<longrightarrow> message_id r \<noteq> None"
    using Cons.prems(1) c(1) Cons.prems(3) by (rule step_full)
  show ?case using Cons.IH [OF a c(2) b] by simp
qed

section \<open>Unknown gateway names and read-only queries\<close>

text \<open>
  Claim C5. \<^verbatim>\<open>send_immediate_sms\<close> with a gateway name that is not in the registry raises
  the \<^verbatim>\<open>ValueError\<close> "Gateway ... not configured" (the configuration error of the
  engine) and leaves the engine as it was: no row of \<^verbatim>\<open>messages\<close> and no row of
  \<^verbatim>\<open>logs\<close> is created.
\<close>

theorem send_immediate_sms_unregistered:
  assumes "gateway_name \<notin> gateways s"
  shows "send_immediate_sms s now gateway_name rcpt body sms
           = (Inl (not_configured gateway_name), s)"
  using assms by (simp add: send_immediate_sms_def)

theorem send_immediate_sms_unregistered_witness:
  "''plivo'' \<notin> gateways (add_gateway init ''twilio'') \<and>
   send_immediate_sms (add_gateway init ''twilio'') 5 ''plivo'' ''+15551230000'' ''hi''
       (Inr Map.empty)
     = (Inl (ValueError ''Gateway plivo not configured''), add_gateway init ''twilio'')"
proof -
  have h: "''plivo'' \<notin> gateways (add_gateway init ''twilio'')"
    by (simp add: add_gateway_def init_def)
  show ?thesis
    using h send_immediate_sms_unregistered
              [OF h, of 5 "''+15551230000''" "''hi''" "Inr Map.empty"]
    by (simp add: not_configured_def)
qed

text \<open>
  Claim C10. \<^verbatim>\<open>get_gateway_balance\<close> and \<^verbatim>\<open>check_delivery_status\<close> leave the engine, and
  with it both tables, unchanged, whether they return or raise.
\<close>

theorem queries_leave_store_unchanged:
  "snd (get_gateway_balance s gateway_name balance_answer) = s \<and>
   snd (check_delivery_status s mid gateway_name status_answer) = s"
  by (simp add: get_gateway_balance_def check_delivery_status_def)

section \<open>The due-work query\<close>

text \<open>
  Claim C1. The due-work query should return the pending rows together with the scheduled
  rows whose time has come. The SELECT asks for \<^verbatim>\<open>status = 'pending'\<close> only, while
  \<^verbatim>\<open>schedule_sms\<close> stores the status \<^verbatim>\<open>'scheduled'\<close>: a message scheduled for time 50 is
  stored as such, and at time 200 the query does not return it.
\<close>

theorem scheduled_in_the_past_is_not_due:
  "(let d = db (snd (schedule_sms (add_gateway init ''twilio'') 100 ''twilio''
                       ''+15551230000'' ''hi'' 50))
    in map status (messages d) = [''scheduled''] \<and>
       map scheduled_at (messages d) = [Some 50] \<and>
       get_pending_messages d 200 = [])"
  by (simp add: schedule_sms_def add_gateway_def init_def empty_db_def log_message_def
        get_pending_messages_def)

section \<open>A failing provider on the immediate path\<close>

text \<open>
  Claim C3. When the gateway is registered and its \<^verbatim>\<open>send_sms\<close> raises \<open>e\<close>,
  \<^verbatim>\<open>send_immediate_sms\<close> re-raises \<open>e\<close>; the table \<^verbatim>\<open>messages\<close> has gained exactly one row,
  under a key that no earlier row has, with status \<^verbatim>\<open>'failed'\<close>; and the table \<^verbatim>\<open>logs\<close> has
  gained exactly one row, with status \<^verbatim>\<open>'failed'\<close>, that refers to it and holds \<^verbatim>\<open>str(e)\<close>.
\<close>

theorem send_immediate_sms_provider_failure:
  assumes "gateway_name \<in> gateways s" and "wf_db (db s)"
  shows "fst (send_immediate_sms s now gateway_name rcpt body (Inl e)) = Inl e
       \<and> messages (db (snd (send_immediate_sms s now gateway_name rcpt body (Inl e))))
           = messages (db s) @
               [\<lparr>row_id = Suc (messages_seq (db s)), contact_id = None, recipient = rcpt,
                 message = body, status = ''failed'', gateway = gateway_name,
                 message_id = None, scheduled_at = None, sent_at = None,
                 created_at = now\<rparr>]
       \<and> logs (db (snd (send_immediate_sms s now gateway_name rcpt body (Inl e))))
           = logs (db s) @
               [\<lparr>log_id = Suc (logs_seq (db s)),
                 log_message_id = Suc (messages_seq (db s)),
                 log_status = ''failed'', details = Text (str_of e),
                 log_created_at = now\<rparr>]
       \<and> Suc (messages_seq (db s)) \<notin> set (map row_id (messages (db s)))"
proof -
  have fresh: "\<forall>r \<in> set (messages (db s)). row_id r \<noteq> Suc (messages_seq (db s))"
    using assms(2) by (rule wf_db_fresh)
  have "messages (db (snd (send_immediate_sms s now gateway_name rcpt body (Inl e))))
           = messages (db s) @
               [\<lparr>row_id = Suc (messages_seq (db s)), contact_id = None, recipient = rcpt,
                 message = body, status = ''failed'', gateway = gateway_name,
                 message_id = None, scheduled_at = None, sent_at = None,
                 created_at = now\<rparr>]"
    by (simp add: send_immediate_messages(1) [OF assms] attempt_row_def update_row_def
          truthy_def new_row_def)
  moreover have "fst (send_immediate_sms s now gateway_name rcpt body (Inl e)) = Inl e"
    using assms(1) by (simp add: send_immediate_sms_def log_message_def Let_def)
  moreover have "logs (db (snd (send_immediate_sms s now gateway_name rcpt body (Inl e))))
           = logs (db s) @
               [\<lparr>log_id = Suc (logs_seq (db s)),
                 log_message_id = Suc (messages_seq (db s)),
                 log_status = ''failed'', details = Text (str_of e),
                 log_created_at = now\<rparr>]"
    using assms(1) by (simp add: send_immediate_sms_def log_message_def Let_def)
  ultimately show ?thesis using fresh by auto
qed

theorem send_immediate_sms_provider_failure_witness:
  "''plivo'' \<in> gateways (add_gateway init ''plivo'') \<and>
   wf_db (db (add_gateway init ''plivo'')) \<and>
   fst (send_immediate_sms (add_gateway init ''plivo'') 7 ''plivo'' ''+15551230000'' ''hi''
          (Inl (Exception ''insufficient balance'')))
     = Inl (Exception ''insufficient balance'') \<and>
   map status (messages (db (snd (send_immediate_sms (add_gateway init ''plivo'') 7 ''plivo''
          ''+15551230000'' ''hi'' (Inl (Exception ''insufficient balance''))))))
     = [''failed''] \<and>
   logs (db (snd (send_immediate_sms (add_gateway init ''plivo'') 7 ''plivo''
          ''+15551230000'' ''hi'' (Inl (Exception ''insufficient balance'')))))
     = [\<lparr>log_id = 1, log_message_id = 1, log_status = ''failed'',
         details = Text ''insufficient balance'', log_created_at = 7\<rparr>]"
proof -
  have reg: "''plivo'' \<in> gateways (add_gateway init ''plivo'')"
    by (simp add: add_gateway_def)
  have wf: "wf_db (db (add_gateway init ''plivo''))"
    by (simp add: add_gateway_def wf_init)
  show ?thesis
    using reg wf
      send_immediate_sms_provider_failure [OF reg wf, of 7 "''+15551230000''" "''hi''"
        "Exception ''insufficient balance''"]
    by (simp add: add_gateway_def init_def empty_db_def)
qed

section \<open>The drain pass\<close>

text \<open>
  Claim C4. When every due row names a registered gateway, one pass of
  \<^verbatim>\<open>process_scheduled_messages\<close> appends exactly one row of \<^verbatim>\<open>logs\<close> per due row, in
  order, each with the status and details of that row's own attempt, and leaves every due
  row with the status of its own attempt (\<^verbatim>\<open>'failed'\<close> where the gateway raised,
  \<^verbatim>\<open>'sent'\<close> otherwise): a gateway that raises for one row does not end the pass.
\<close>

theorem drain_records_every_due_message:
  assumes "wf_db (db s)"
    and "\<forall>m \<in> set (get_pending_messages (db s) now). gateway m \<in> gateways s"
  shows "logs (db (process_scheduled_messages s now sms))
           = logs (db s) @ new_logs (db s) (db (process_scheduled_messages s now sms))
       \<and> map log_message_id (new_logs (db s) (db (process_scheduled_messages s now sms)))
           = map row_id (get_pending_messages (db s) now)
       \<and> map log_status (new_logs (db s) (db (process_scheduled_messages s now sms)))
           = map (\<lambda>m. attempt_status (sms m)) (get_pending_messages (db s) now)
       \<and> map details (new_logs (db s) (db (process_scheduled_messages s now sms)))
           = map (\<lambda>m. attempt_detail (sms m)) (get_pending_messages (db s) now)
       \<and> (\<forall>m \<in> set (get_pending_messages (db s) now).
             status_of (db (process_scheduled_messages s now sms)) (row_id m)
               = Some (attempt_status (sms m)))"
proof -
  have all: "filter (\<lambda>m. gateway m \<in> gateways s) (get_pending_messages (db s) now)
               = get_pending_messages (db s) now"
    using assms(2) by (simp add: filter_id_conv)
  have "status_of (db (process_scheduled_messages s now sms)) (row_id m)
               = Some (attempt_status (sms m))"
    if "m \<in> set (get_pending_messages (db s) now)" for m
    using that assms(2) drain_row_of [OF assms(1) pending_subset [OF that], of now sms]
    by (simp add: status_of_def)
  then show ?thesis
    using drain_logs [of s now sms] unfolding all by blast
qed

theorem drain_records_every_due_message_witness:
  "wf_db (db (add_gateway backlog ''plivo'')) \<and>
   map gateway (get_pending_messages (db (add_gateway backlog ''plivo'')) 10)
     = [''twilio'', ''plivo'', ''twilio''] \<and>
   gateways (add_gateway backlog ''plivo'') = {''plivo'', ''twilio''} \<and>
   map log_message_id
     (new_logs (db (add_gateway backlog ''plivo''))
        (db (process_scheduled_messages (add_gateway backlog ''plivo'') 10 flaky)))
     = [1, 2, 3] \<and>
   map log_status
     (new_logs (db (add_gateway backlog ''plivo''))
        (db (process_scheduled_messages (add_gateway backlog ''plivo'') 10 flaky)))
     = [''failed'', ''sent'', ''sent''] \<and>
   status_of (db (process_scheduled_messages (add_gateway backlog ''plivo'') 10 flaky)) 1
     = Some ''failed'' \<and>
   status_of (db (process_scheduled_messages (add_gateway backlog ''plivo'') 10 flaky)) 3
     = Some ''sent''"
proof -
  have reg: "\<forall>m \<in> set (get_pending_messages (db (add_gateway backlog ''plivo'')) 10).
               gateway m \<in> gateways (add_gateway backlog ''plivo'')"
    by (simp add: pending_backlog) (simp add: add_gateway_def backlog_def pending_row_def)
  show ?thesis
    using drain_records_every_due_message [OF wf_backlog(2) reg, of flaky]
    by (simp add: pending_backlog wf_backlog)
       (auto simp: pending_row_def flaky_def attempt_status_def add_gateway_def backlog_def)
qed

text \<open>
  Claim C6. A due row whose gateway is not registered is passed over by
  \<^verbatim>\<open>process_scheduled_messages\<close>: the row is left exactly as it was (its status is still
  \<^verbatim>\<open>'pending'\<close>), no new row of \<^verbatim>\<open>logs\<close> refers to it, and the due rows with a registered
  gateway are still attempted and recorded.
\<close>

theorem drain_skips_unregistered_gateway:
  assumes "wf_db (db s)" and "m \<in> set (get_pending_messages (db s) now)"
    and "gateway m \<notin> gateways s"
  shows "row_of (db (process_scheduled_messages s now sms)) (row_id m) = Some m
       \<and> status_of (db (process_scheduled_messages s now sms)) (row_id m) = Some ''pending''
       \<and> row_id m \<notin> set (map log_message_id
                            (new_logs (db s) (db (process_scheduled_messages s now sms))))
       \<and> logs (db (process_scheduled_messages s now sms))
           = logs (db s) @ new_logs (db s) (db (process_scheduled_messages s now sms))
       \<and> map log_message_id (new_logs (db s) (db (process_scheduled_messages s now sms)))
           = map row_id (filter (\<lambda>m. gateway m \<in> gateways s)
                           (get_pending_messages (db s) now))
       \<and> (\<forall>m' \<in> set (get_pending_messages (db s) now). gateway m' \<in> gateways s \<longrightarrow>
             status_of (db (process_scheduled_messages s now sms)) (row_id m')
               = Some (attempt_status (sms m')))"
proof -
  have row: "row_of (db (process_scheduled_messages s now sms)) (row_id m) = Some m"
    using assms(3) drain_row_of [OF assms(1) pending_subset [OF assms(2)], of now sms] by simp
  have st: "status_of (db (process_scheduled_messages s now sms)) (row_id m) = Some ''pending''"
    using row pending_status [OF assms(2)] by (simp add: status_of_def)
  have nolog: "row_id m \<notin> set (map log_message_id
                            (new_logs (db s) (db (process_scheduled_messages s now sms))))"
  proof
    assume "row_id m \<in> set (map log_message_id
                            (new_logs (db s) (db (process_scheduled_messages s now sms))))"
    then obtain m' where m': "m' \<in> set (get_pending_messages (db s) now)"
        "gateway m' \<in> gateways s" "row_id m' = row_id m"
      unfolding drain_logs(2) by auto
    have "m' = m"
      using wf_db_same_row [OF assms(1) pending_subset [OF assms(2)] pending_subset [OF m'(1)] m'(3)] .
    then show False using m'(2) assms(3) by simp
  qed
  have others: "status_of (db (process_scheduled_messages s now sms)) (row_id m')
               = Some (attempt_status (sms m'))"
    if "m' \<in> set (get_pending_messages (db s) now)" "gateway m' \<in> gateways s" for m'
    using that drain_row_of [OF assms(1) pending_subset [OF that(1)], of now sms]
    by (simp add: status_of_def)
  show ?thesis
    using row st nolog others drain_logs(1,2) [of s now sms] by blast
qed

theorem drain_skips_unregistered_gateway_witness:
  "wf_db (db backlog) \<and>
   pending_row 2 ''plivo'' \<in> set (get_pending_messages (db backlog) 10) \<and>
   ''plivo'' \<notin> gateways backlog \<and>
   row_of (db (process_scheduled_messages backlog 10 flaky)) 2 = Some (pending_row 2 ''plivo'') \<and>
   status_of (db (process_scheduled_messages backlog 10 flaky)) 2 = Some ''pending'' \<and>
   map log_message_id (new_logs (db backlog) (db (process_scheduled_messages backlog 10 flaky)))
     = [1, 3] \<and>
   status_of (db (process_scheduled_messages backlog 10 flaky)) 1 = Some ''failed'' \<and>
   status_of (db (process_scheduled_messages backlog 10 flaky)) 3 = Some ''sent''"
proof -
  have due: "pending_row 2 ''plivo'' \<in> set (get_pending_messages (db backlog) 10)"
    by (simp add: pending_backlog)
  have unreg: "gateway (pending_row 2 ''plivo'') \<notin> gateways backlog"
    by (simp add: pending_row_def backlog_def)
  show ?thesis
    using drain_skips_unregistered_gateway [OF wf_backlog(1) due unreg, of flaky]
    by (simp add: pending_backlog wf_backlog)
       (auto simp: pending_row_def flaky_def attempt_status_def backlog_def)
qed

section \<open>Terminal states\<close>

text \<open>
  Claim C7. From any store with distinct keys, whatever operations the engine runs
  (\<^verbatim>\<open>add_gateway\<close>, \<^verbatim>\<open>send_immediate_sms\<close>, \<^verbatim>\<open>schedule_sms\<close>,
  \<^verbatim>\<open>process_scheduled_messages\<close>, with any gateway outcomes), a message whose status is
  \<^verbatim>\<open>'sent'\<close> or \<^verbatim>\<open>'failed'\<close> keeps that status, and a message whose status is
  \<^verbatim>\<open>'scheduled'\<close> never has the status \<^verbatim>\<open>'pending'\<close> afterwards. Every store the engine
  builds from the empty one has distinct keys (\<open>wf_run\<close>, \<open>wf_init\<close>).
\<close>

theorem terminal_status_is_final:
  assumes "wf_db (db s)" and "status_of (db s) k = Some st"
  shows "(st = ''sent'' \<or> st = ''failed'' \<longrightarrow> status_of (db (run ops s)) k = Some st)
       \<and> (st = ''scheduled'' \<longrightarrow> status_of (db (run ops s)) k \<noteq> Some ''pending'')"
proof -
  obtain r where r: "row_of (db s) k = Some r" "status r = st"
    using assms(2) by (auto simp: status_of_def)
  have mem: "r \<in> set (messages (db s))" and k: "row_id r = k"
    using row_of_SomeD [OF r(1)] by simp_all
  have "status_of (db (run ops s)) k = Some st" if "st \<noteq> ''pending''"
  proof -
    have "r \<in> set (messages (db (run ops s)))"
      using run_frozen [OF assms(1) mem] that r(2) by simp
    then have "row_of (db (run ops s)) (row_id r) = Some r"
      using row_of_wf [OF wf_run [OF assms(1)]] by simp
    then show ?thesis using k r(2) by (simp add: status_of_def)
  qed
  then show ?thesis by auto
qed

theorem terminal_status_is_final_witness:
  "wf_db (db (run earlier_ops init)) \<and>
   status_of (db (run earlier_ops init)) 1 = Some ''failed'' \<and>
   status_of (db (run later_ops (run earlier_ops init))) 1 = Some ''failed'' \<and>
   status_of (db (run earlier_ops init)) 2 = Some ''scheduled'' \<and>
   status_of (db (run later_ops (run earlier_ops init))) 2 \<noteq> Some ''pending''"
proof -
  have wf: "wf_db (db (run earlier_ops init))"
    by (rule wf_run [OF wf_init])
  have st1: "status_of (db (run earlier_ops init)) 1 = Some ''failed''"
    by (simp add: status_of_def row_of_def earlier_ops_def engine_defs)
  have st2: "status_of (db (run earlier_ops init)) 2 = Some ''scheduled''"
    by (simp add: status_of_def row_of_def earlier_ops_def engine_defs)
  show ?thesis
    using wf st1 st2 terminal_status_is_final [OF wf st1, of later_ops]
      terminal_status_is_final [OF wf st2, of later_ops]
    by simp
qed

section \<open>Status, sent_at and the gateway's message id\<close>

text \<open>
  Claim C2, as amended. In every store that the engine builds from the empty one, a row
  has \<^verbatim>\<open>sent_at\<close> exactly when it has \<^verbatim>\<open>message_id\<close>, and then its status is \<^verbatim>\<open>'sent'\<close>.
  A row with status \<^verbatim>\<open>'sent'\<close> has both when every successful gateway answer of the run
  carried a non-empty \<^verbatim>\<open>'sid'\<close> or \<^verbatim>\<open>'message_uuid'\<close>.
\<close>

theorem sent_at_and_message_id_go_together:
  assumes "r \<in> set (messages (db (run ops init)))"
  shows "(sent_at r \<noteq> None \<longleftrightarrow> message_id r \<noteq> None)
       \<and> (message_id r \<noteq> None \<longrightarrow> status r = ''sent'')
       \<and> (list_all carries_id ops \<longrightarrow> status r = ''sent'' \<longrightarrow> message_id r \<noteq> None)"
proof -
  have "row_inv r"
    using run_inv [OF wf_init, of ops] assms by (simp add: init_def empty_db_def)
  moreover have "status r = ''sent'' \<longrightarrow> message_id r \<noteq> None" if "list_all carries_id ops"
    using run_full [OF wf_init that] assms by (simp add: init_def empty_db_def)
  ultimately show ?thesis by (auto simp: row_inv_def)
qed

theorem sent_at_and_message_id_go_together_witness:
  "messages (db (run [AddGateway ''twilio'',
                      SendNow 1 ''twilio'' ''+15551230000'' ''hi'' (Inr [''sid'' \<mapsto> ''SM1''])] init))
     = [(pending_row 1 ''twilio'')\<lparr>status := ''sent'', message_id := Some ''SM1'',
                                   sent_at := Some 1, created_at := 1\<rparr>]
   \<and> list_all carries_id [AddGateway ''twilio'',
                      SendNow 1 ''twilio'' ''+15551230000'' ''hi'' (Inr [''sid'' \<mapsto> ''SM1''])]
   \<and> sent_at ((pending_row 1 ''twilio'')\<lparr>status := ''sent'', message_id := Some ''SM1'',
                                   sent_at := Some 1, created_at := 1\<rparr>) \<noteq> None
   \<and> message_id ((pending_row 1 ''twilio'')\<lparr>status := ''sent'', message_id := Some ''SM1'',
                                   sent_at := Some 1, created_at := 1\<rparr>) \<noteq> None
   \<and> status ((pending_row 1 ''twilio'')\<lparr>status := ''sent'', message_id := Some ''SM1'',
                                   sent_at := Some 1, created_at := 1\<rparr>) = ''sent''"
proof -
  have rows: "messages (db (run [AddGateway ''twilio'',
                      SendNow 1 ''twilio'' ''+15551230000'' ''hi'' (Inr [''sid'' \<mapsto> ''SM1''])] init))
     = [(pending_row 1 ''twilio'')\<lparr>status := ''sent'', message_id := Some ''SM1'',
                                   sent_at := Some 1, created_at := 1\<rparr>]"
    by (simp add: engine_defs pending_row_def)
  have mem: "(pending_row 1 ''twilio'')\<lparr>status := ''sent'', message_id := Some ''SM1'',
                                   sent_at := Some 1, created_at := 1\<rparr>
      \<in> set (messages (db (run [AddGateway ''twilio'',
                      SendNow 1 ''twilio'' ''+15551230000'' ''hi'' (Inr [''sid'' \<mapsto> ''SM1''])] init)))"
    unfolding rows by simp
  have ids: "list_all carries_id [AddGateway ''twilio'',
                      SendNow 1 ''twilio'' ''+15551230000'' ''hi'' (Inr [''sid'' \<mapsto> ''SM1''])]"
    by (simp add: has_id_def truthy_def py_or_def)
  show ?thesis
    using rows ids sent_at_and_message_id_go_together [OF mem] by simp
qed

text \<open>
  The claim as stated fails: a gateway that accepts the message and answers without
  \<^verbatim>\<open>'sid'\<close> and \<^verbatim>\<open>'message_uuid'\<close> leaves the row with status \<^verbatim>\<open>'sent'\<close> and neither
  \<^verbatim>\<open>sent_at\<close> nor \<^verbatim>\<open>message_id\<close>, because \<^verbatim>\<open>update_message_status\<close> stamps them only
  under \<^verbatim>\<open>if gateway_message_id\<close>.
\<close>

theorem sent_without_sent_at:
  "messages (db (run [AddGateway ''twilio'',
                      SendNow 1 ''twilio'' ''+15551230000'' ''hi''
                        (Inr [''status'' \<mapsto> ''queued''])] init))
     = [\<lparr>row_id = 1, contact_id = None, recipient = ''+15551230000'', message = ''hi'',
         status = ''sent'', gateway = ''twilio'', message_id = None, scheduled_at = None,
         sent_at = None, created_at = 1\<rparr>]"
  by (simp add: engine_defs)

section \<open>update_message_status\<close>

text \<open>
  Claim C8, as amended. \<^verbatim>\<open>update_message_status\<close> changes only the rows of \<^verbatim>\<open>messages\<close>
  with the given key. Given a non-empty gateway message id, it sets their status, records
  the id and stamps \<^verbatim>\<open>sent_at\<close> with the current time; given none, or the empty string, it
  sets their status and leaves \<^verbatim>\<open>message_id\<close> and \<^verbatim>\<open>sent_at\<close> as they were.
\<close>

theorem update_message_status_effect:
  assumes "i < length (messages d)"
  shows "length (messages (update_message_status d now mid st g)) = length (messages d)
       \<and> logs (update_message_status d now mid st g) = logs d
       \<and> (row_id (messages d ! i) \<noteq> mid \<longrightarrow>
            messages (update_message_status d now mid st g) ! i = messages d ! i)
       \<and> (row_id (messages d ! i) = mid \<longrightarrow>
            (\<forall>x. g = Some x \<and> x \<noteq> [] \<longrightarrow>
               messages (update_message_status d now mid st g) ! i
                 = (messages d ! i)\<lparr>status := st, message_id := Some x, sent_at := Some now\<rparr>)
          \<and> (g = None \<or> g = Some [] \<longrightarrow>
               messages (update_message_status d now mid st g) ! i
                 = (messages d ! i)\<lparr>status := st\<rparr>))"
  using assms by (auto simp: update_message_status_def truthy_def)

theorem update_message_status_effect_witness:
  "messages (update_message_status (db backlog) 9 2 ''sent'' (Some ''SM2'')) ! 1
     = (pending_row 2 ''plivo'')\<lparr>status := ''sent'', message_id := Some ''SM2'', sent_at := Some 9\<rparr>
   \<and> messages (update_message_status (db backlog) 9 2 ''failed'' None) ! 1
     = (pending_row 2 ''plivo'')\<lparr>status := ''failed''\<rparr>
   \<and> messages (update_message_status (db backlog) 9 2 ''failed'' None) ! 0
     = pending_row 1 ''twilio''"
proof -
  have len: "1 < length (messages (db backlog))" "0 < length (messages (db backlog))"
    by (simp_all add: backlog_def)
  show ?thesis
    using update_message_status_effect [OF len(1), of 9 2 "''sent''" "Some ''SM2''"]
      update_message_status_effect [OF len(1), of 9 2 "''failed''" None]
      update_message_status_effect [OF len(2), of 9 2 "''failed''" None]
    by (simp add: backlog_def pending_row_def)
qed

text \<open>
  The claim as stated fails for an id that is supplied but empty: the guard is Python's
  truth value of the argument, so the id is not recorded and \<^verbatim>\<open>sent_at\<close> is not stamped.
\<close>

theorem empty_gateway_id_is_not_recorded:
  "messages (update_message_status (db backlog) 9 2 ''sent'' (Some '''')) ! 1
     = (pending_row 2 ''plivo'')\<lparr>status := ''sent''\<rparr>
   \<and> message_id (messages (update_message_status (db backlog) 9 2 ''sent'' (Some '''')) ! 1)
       = None
   \<and> sent_at (messages (update_message_status (db backlog) 9 2 ''sent'' (Some '''')) ! 1)
       = None"
  by (simp add: update_message_status_def truthy_def backlog_def pending_row_def)

section \<open>Success codes and the message identifier\<close>

text \<open>
  Claim C9, as amended. \<^verbatim>\<open>TwilioGateway.send_sms\<close> returns the parsed body exactly when
  the status code is 201 and the body parses as JSON, \<^verbatim>\<open>PlivoGateway.send_sms\<close> exactly when
  the status code is 202 and the body parses; at the success code each yields whatever
  \<^verbatim>\<open>response.json()\<close> yields, so a body that does not parse raises the parser's error; at
  every other code each raises an \<^verbatim>\<open>Exception\<close> whose text carries the response body. The
  identifier that \<^verbatim>\<open>send_immediate_sms\<close> stores for a successful send is the field
  \<^verbatim>\<open>'sid'\<close> when that is non-empty, otherwise the field \<^verbatim>\<open>'message_uuid'\<close> when that is
  non-empty.
\<close>

theorem gateway_send_sms_codes:
  "(TwilioGateway_send_sms (Inr r) = Inr p \<longleftrightarrow> status_code r = 201 \<and> resp_json r = Inr p)
   \<and> (status_code r = 201 \<longrightarrow> TwilioGateway_send_sms (Inr r) = resp_json r)
   \<and> (status_code r \<noteq> 201 \<longrightarrow>
        TwilioGateway_send_sms (Inr r) = Inl (Exception (''Twilio API error: '' @ resp_text r)))
   \<and> (PlivoGateway_send_sms (Inr r) = Inr p \<longleftrightarrow> status_code r = 202 \<and> resp_json r = Inr p)
   \<and> (status_code r = 202 \<longrightarrow> PlivoGateway_send_sms (Inr r) = resp_json r)
   \<and> (status_code r \<noteq> 202 \<longrightarrow>
        PlivoGateway_send_sms (Inr r) = Inl (Exception (''Plivo API error: '' @ resp_text r)))
   \<and> (gateway_name \<in> gateways s \<and> wf_db (db s) \<longrightarrow>
        map message_id
          (messages (db (snd (send_immediate_sms s now gateway_name rcpt body (Inr result)))))
         = map message_id (messages (db s)) @
             [case result ''sid'' of
                Some x \<Rightarrow> if x \<noteq> [] then Some x
                          else (case result ''message_uuid'' of
                                  Some y \<Rightarrow> if y \<noteq> [] then Some y else None
                                | None \<Rightarrow> None)
              | None \<Rightarrow> (case result ''message_uuid'' of
                           Some y \<Rightarrow> if y \<noteq> [] then Some y else None
                         | None \<Rightarrow> None)])"
proof -
  have "map message_id
        (messages (db (snd (send_immediate_sms s now gateway_name rcpt body (Inr result)))))
       = map message_id (messages (db s)) @
           [case result ''sid'' of
              Some x \<Rightarrow> if x \<noteq> [] then Some x
                        else (case result ''message_uuid'' of
                                Some y \<Rightarrow> if y \<noteq> [] then Some y else None
                              | None \<Rightarrow> None)
            | None \<Rightarrow> (case result ''message_uuid'' of
                         Some y \<Rightarrow> if y \<noteq> [] then Some y else None
                       | None \<Rightarrow> None)]"
    if reg: "gateway_name \<in> gateways s" and wf: "wf_db (db s)"
    by (simp add: send_immediate_messages(1) [OF reg wf] attempt_row_def update_row_def
          truthy_def py_or_def new_row_def split: option.splits)
  then show ?thesis
    by (auto simp: TwilioGateway_send_sms_def PlivoGateway_send_sms_def)
qed

theorem gateway_send_sms_codes_witness:
  "PlivoGateway_send_sms
      (Inr \<lparr>status_code = 202, resp_text = ''accepted'',
            resp_json = Inr [''message_uuid'' \<mapsto> ''u-1'']\<rparr>)
     = Inr [''message_uuid'' \<mapsto> ''u-1'']
   \<and> TwilioGateway_send_sms
      (Inr \<lparr>status_code = 202, resp_text = ''accepted'',
            resp_json = Inr [''message_uuid'' \<mapsto> ''u-1'']\<rparr>)
     = Inl (Exception ''Twilio API error: accepted'')
   \<and> map message_id
        (messages (db (snd (send_immediate_sms (add_gateway init ''plivo'') 7 ''plivo''
           ''+15551230000'' ''hi'' (Inr [''sid'' \<mapsto> '''', ''message_uuid'' \<mapsto> ''u-1''])))))
     = [Some ''u-1'']"
proof -
  have reg: "''plivo'' \<in> gateways (add_gateway init ''plivo'')"
    by (simp add: add_gateway_def)
  have wf: "wf_db (db (add_gateway init ''plivo''))"
    by (simp add: add_gateway_def wf_init)
  show ?thesis
    using reg wf gateway_send_sms_codes
        [of "\<lparr>status_code = 202, resp_text = ''accepted'',
             resp_json = Inr [''message_uuid'' \<mapsto> ''u-1'']\<rparr>"
           "[''message_uuid'' \<mapsto> ''u-1'']" "''plivo''" "add_gateway init ''plivo''"
           7 "''+15551230000''" "''hi''"
           "[''sid'' \<mapsto> '''', ''message_uuid'' \<mapsto> ''u-1'']"]
    by (simp add: add_gateway_def init_def empty_db_def)
qed

text \<open>
  The claim as stated fails: at the success code with a body that is not JSON,
  \<^verbatim>\<open>response.json()\<close> raises, so the gateway neither returns a payload nor raises the
  \<^verbatim>\<open>Exception\<close> that carries the response body.
\<close>

theorem success_code_with_unparseable_body_raises:
  "status_code \<lparr>status_code = 201, resp_text = ''<html>Created</html>'',
                resp_json = Inl (OtherError ''Expecting value: line 1 column 1 (char 0)'')\<rparr>
     = 201
   \<and> TwilioGateway_send_sms
        (Inr \<lparr>status_code = 201, resp_text = ''<html>Created</html>'',
              resp_json = Inl (OtherError ''Expecting value: line 1 column 1 (char 0)'')\<rparr>)
     = Inl (OtherError ''Expecting value: line 1 column 1 (char 0)'')
   \<and> PlivoGateway_send_sms
        (Inr \<lparr>status_code = 202, resp_text = ''<html>Accepted</html>'',
              resp_json = Inl (OtherError ''Expecting value: line 1 column 1 (char 0)'')\<rparr>)
     = Inl (OtherError ''Expecting value: line 1 column 1 (char 0)'')"
  by (simp add: TwilioGateway_send_sms_def PlivoGateway_send_sms_def)

end
